theory Spec2Isabelle
  imports Complex_Main
begin

section \<open>Values, documents and errors\<close>

text \<open>
  The service of \<^verbatim>\<open>main.py\<close> moves JSON values around: request bodies, the documents
  of the MongoDB collection and the response bodies are Python dictionaries, lists,
  strings and numbers. A Python \<^verbatim>\<open>str\<close> is a \<^typ>\<open>string\<close> here (the UTF-8 bytes of the
  text), a Python \<^verbatim>\<open>int\<close> an \<^typ>\<open>int\<close>, and a Python \<^verbatim>\<open>float\<close> an exact
  \<^typ>\<open>rat\<close>: arithmetic on doubles is idealised as arithmetic on rationals.
  \<^verbatim>\<open>None\<close> and JSON \<^verbatim>\<open>null\<close> are \<open>JNull\<close>.
\<close>

datatype json =
    JNull
  | JBool bool
  | JInt int
  | JFloat rat
  | JStr string
  | JList "json list"
  | JObj "(string \<times> json) list"

type_synonym doc = "(string \<times> json) list"

text \<open>
  The exceptions a handler can let escape (Flask answers them with a bare 500), and the
  failure of the external summarizer call.
\<close>

datatype py_error = TypeError | KeyError | AttributeError | SummarizerError

type_synonym response = "nat \<times> json"

text \<open>Python truthiness, as \<^verbatim>\<open>not x\<close> and \<^verbatim>\<open>x and y\<close> test it.\<close>

fun truthy :: "json \<Rightarrow> bool" where
  "truthy JNull = False"
| "truthy (JBool b) = b"
| "truthy (JInt i) = (i \<noteq> 0)"
| "truthy (JFloat q) = (q \<noteq> 0)"
| "truthy (JStr s) = (s \<noteq> [])"
| "truthy (JList xs) = (xs \<noteq> [])"
| "truthy (JObj kvs) = (kvs \<noteq> [])"

text \<open>
  The value of a number in a comparison or a sum (\<^verbatim>\<open>bool\<close> is a subclass of
  \<^verbatim>\<open>int\<close>); \<open>None\<close> for the values on which \<^verbatim>\<open><=\<close> and \<^verbatim>\<open>+\<close> with an
  \<^verbatim>\<open>int\<close> raise \<^verbatim>\<open>TypeError\<close>.
\<close>

fun num_of :: "json \<Rightarrow> rat option" where
  "num_of (JBool b) = Some (if b then 1 else 0)"
| "num_of (JInt i) = Some (of_int i)"
| "num_of (JFloat q) = Some q"
| "num_of _ = None"

text \<open>\<^verbatim>\<open>d.get(k)\<close>: the value, or \<^verbatim>\<open>None\<close> for a missing key.\<close>

definition dict_get :: "doc \<Rightarrow> string \<Rightarrow> json" where
  "dict_get d k = (case map_of d k of None \<Rightarrow> JNull | Some v \<Rightarrow> v)"

text \<open>\<^verbatim>\<open>d[k]\<close>: the value, or \<^verbatim>\<open>KeyError\<close> for a missing key.\<close>

definition getitem :: "doc \<Rightarrow> string \<Rightarrow> py_error + json" where
  "getitem d k = (case map_of d k of None \<Rightarrow> Inl KeyError | Some v \<Rightarrow> Inr v)"

text \<open>
  A list comprehension \<^verbatim>\<open>[f(x) for x in xs]\<close> whose body can raise: the first
  exception ends it.
\<close>

fun traverse :: "('a \<Rightarrow> py_error + 'b) \<Rightarrow> 'a list \<Rightarrow> py_error + 'b list" where
  "traverse f [] = Inr []"
| "traverse f (x # xs) =
     (case f x of
        Inl e \<Rightarrow> Inl e
      | Inr y \<Rightarrow> (case traverse f xs of Inl e \<Rightarrow> Inl e | Inr ys \<Rightarrow> Inr (y # ys)))"

text \<open>The texts of the responses (UTF-8 bytes for the accented letters).\<close>

definition msg_db :: string where
  "msg_db = ''Erro de conex'' @ [CHR 0xC3, CHR 0xA3] @ ''o com o banco de dados''"

definition msg_invalid :: string where
  "msg_invalid = ''Dados inv'' @ [CHR 0xC3, CHR 0xA1] @ ''lidos''"

definition msg_saved :: string where
  "msg_saved = ''Avalia'' @ [CHR 0xC3, CHR 0xA7, CHR 0xC3, CHR 0xA3] @ ''o salva com sucesso''"

definition msg_id_required :: string where
  "msg_id_required =
     ''ID do produto '' @ [CHR 0xC3, CHR 0xA9] @ '' obrigat'' @ [CHR 0xC3, CHR 0xB3] @ ''rio''"


text \<open>
  The placeholder summary of a product without reviews (line 149), Portuguese for
  "no summary available".
\<close>

definition no_summary :: string where
  "no_summary = ''Nenhum resumo dispon'' @ [CHR 0xC3, CHR 0xAD] @ ''vel.''"

definition error_body :: "string \<Rightarrow> json" where
  "error_body m = JObj [(''error'', JStr m)]"

section \<open>The summary cache\<close>

text \<open>
  \<^verbatim>\<open>cache = cachetools.TTLCache(maxsize=100, ttl=3600)\<close> (line 39). The class is the
  library's; its behaviour is written out here as the library documents it. An entry
  carries the time at which it expires (the time of its insertion plus \<open>ttl\<close>); the list
  is kept in order of use, least recently used first. Time is the reading of the
  cache's monotonic timer, in seconds.
\<close>

record entry =
  ekey :: string
  evalue :: string
  expires :: nat

type_synonym ttl_cache = "entry list"

definition maxsize :: nat where
  "maxsize = 100"

definition ttl :: nat where
  "ttl = 3600"

text \<open>An entry is live at time \<open>t\<close> while \<open>t < expires\<close>.\<close>

definition live :: "nat \<Rightarrow> entry \<Rightarrow> bool" where
  "live t e = (t < expires e)"

definition expire :: "nat \<Rightarrow> ttl_cache \<Rightarrow> ttl_cache" where
  "expire t c = filter (live t) c"

definition without :: "string \<Rightarrow> ttl_cache \<Rightarrow> ttl_cache" where
  "without k c = filter (\<lambda>e. ekey e \<noteq> k) c"

text \<open>
  \<^verbatim>\<open>cache.get(key)\<close>: the value of a live entry, which becomes the most recently used
  one; \<^verbatim>\<open>None\<close> for a missing or an expired entry, which leaves the cache as it is.
\<close>

definition cache_get :: "ttl_cache \<Rightarrow> nat \<Rightarrow> string \<Rightarrow> string option \<times> ttl_cache" where
  "cache_get c t k =
     (case find (\<lambda>e. ekey e = k) c of
        None \<Rightarrow> (None, c)
      | Some e \<Rightarrow> if live t e then (Some (evalue e), without k c @ [e]) else (None, c))"

text \<open>
  \<^verbatim>\<open>popitem\<close> in a loop, \<^verbatim>\<open>while currsize + 1 > maxsize\<close>: the least recently used
  entries go first.
\<close>

fun evict :: "ttl_cache \<Rightarrow> ttl_cache" where
  "evict [] = []"
| "evict (e # c) = (if length (e # c) + 1 > maxsize then evict c else e # c)"

text \<open>
  \<^verbatim>\<open>cache[key] = value\<close>: the expired entries are dropped, room is made for a new key,
  and the entry is written with a fresh expiry time, as the most recently used one.
\<close>

definition cache_set :: "ttl_cache \<Rightarrow> nat \<Rightarrow> string \<Rightarrow> string \<Rightarrow> ttl_cache" where
  "cache_set c t k v =
     (let c1 = expire t c;
          c2 = (if k \<in> ekey ` set c1 then c1 else evict c1)
      in without k c2 @ [\<lparr>ekey = k, evalue = v, expires = t + ttl\<rparr>])"

text \<open>The entry stored under a key, live or not: the content of the cache as a map.\<close>

definition entry_of :: "ttl_cache \<Rightarrow> string \<Rightarrow> entry option" where
  "entry_of c k = find (\<lambda>e. ekey e = k) c"

text \<open>
  What lines 157 and 158 accept from the cache at time \<open>t\<close>: the value of a live entry
  that is not the empty string.
\<close>

definition usable :: "ttl_cache \<Rightarrow> nat \<Rightarrow> string \<Rightarrow> string option" where
  "usable c t k =
     (case entry_of c k of
        None \<Rightarrow> None
      | Some e \<Rightarrow> if t < expires e \<and> evalue e \<noteq> [] then Some (evalue e) else None)"

section \<open>The state of the service\<close>

text \<open>
  The module's globals and the world around it: \<open>collection\<close> is \<open>None\<close> when the
  connection failed at start-up (lines 30 to 37) and the documents of the collection,
  oldest insertion first, otherwise; \<open>cache\<close> is the summary cache; \<open>now\<close> is the timer;
  \<open>llm_log\<close> records the argument of every call of \<open>gerar_resumo\<close> so far.
\<close>

record state =
  collection :: "doc list option"
  cache :: ttl_cache
  now :: nat
  llm_log :: "json list list"

section \<open>The review store\<close>

text \<open>
  \<^verbatim>\<open>collection.find({'produto_id': produto_id}, {'_id': 0}).sort('data', -1)\<close>. The
  query matches a document whose field equals the string, or is an array holding it.
  The documents are kept here without the \<^verbatim>\<open>_id\<close> the database adds and the
  projection removes. The database compares the values of the sort field
  \<^verbatim>\<open>data\<close> (a missing field counts as null); that comparison is the parameter
  \<open>key\<close>, a map into a linear order. Documents with equal keys stay in the order of
  their insertion.
\<close>

definition matches :: "string \<Rightarrow> doc \<Rightarrow> bool" where
  "matches pid d =
     (case map_of d ''produto_id'' of
        Some (JStr p) \<Rightarrow> p = pid
      | Some (JList vs) \<Rightarrow> JStr pid \<in> set vs
      | _ \<Rightarrow> False)"

fun insert_desc :: "('a \<Rightarrow> 'k::linorder) \<Rightarrow> 'a \<Rightarrow> 'a list \<Rightarrow> 'a list" where
  "insert_desc f x [] = [x]"
| "insert_desc f x (y # ys) = (if f y \<le> f x then x # y # ys else y # insert_desc f x ys)"

fun sort_desc :: "('a \<Rightarrow> 'k::linorder) \<Rightarrow> 'a list \<Rightarrow> 'a list" where
  "sort_desc f [] = []"
| "sort_desc f (x # xs) = insert_desc f x (sort_desc f xs)"

definition find_sorted :: "(json option \<Rightarrow> 'k::linorder) \<Rightarrow> doc list \<Rightarrow> string \<Rightarrow> doc list" where
  "find_sorted key db pid = sort_desc (\<lambda>d. key (map_of d ''data'')) (filter (matches pid) db)"

section \<open>The summarizer\<close>

text \<open>
  \<^verbatim>\<open>gerar_resumo(comentarios)\<close> (lines 18 to 22) sends a prompt built from the list to
  the generative model and returns the text of the reply, or raises. The model is
  outside the program: it is the parameter \<open>llm\<close>, which gives, for the number of calls
  made before and the list passed, the outcome of the call and the time it took. The
  call is recorded in \<open>llm_log\<close> and the timer moves on.
\<close>

type_synonym summarizer = "nat \<Rightarrow> json list \<Rightarrow> (py_error + string) \<times> nat"

definition gerar_resumo :: "summarizer \<Rightarrow> json list \<Rightarrow> state \<Rightarrow> (py_error + string) \<times> state" where
  "gerar_resumo llm comentarios s =
     (let (r, d) = llm (length (llm_log s)) comentarios
      in (r, s\<lparr>llm_log := llm_log s @ [comentarios], now := now s + d\<rparr>))"

text \<open>\<^verbatim>\<open>[avaliacao['avaliacao'] for avaliacao in reviews[:20]]\<close> (lines 41 and 42).\<close>

definition filtrar_comentarios :: "doc list \<Rightarrow> py_error + json list" where
  "filtrar_comentarios reviews = traverse (\<lambda>avaliacao. getitem avaliacao ''avaliacao'') (take 20 reviews)"

section \<open>Saving a review\<close>

text \<open>\<^verbatim>\<open>1 <= nota <= 5\<close>: a \<^verbatim>\<open>TypeError\<close> when \<open>nota\<close> is not a number.\<close>

definition nota_in_range :: "json \<Rightarrow> py_error + bool" where
  "nota_in_range nota =
     (case num_of nota of None \<Rightarrow> Inl TypeError | Some q \<Rightarrow> Inr (1 \<le> q \<and> q \<le> 5))"

text \<open>
  \<^verbatim>\<open>produto_id and nome_usuario and 1 <= nota <= 5 and avaliacao\<close> (line 92), read as a
  truth value: \<^verbatim>\<open>and\<close> stops at the first falsy operand, so the comparison is only
  made when both names are truthy.
\<close>

definition dados_validos :: "json \<Rightarrow> json \<Rightarrow> json \<Rightarrow> json \<Rightarrow> py_error + bool" where
  "dados_validos produto_id nome_usuario nota avaliacao =
     (if \<not> truthy produto_id then Inr False
      else if \<not> truthy nome_usuario then Inr False
      else (case nota_in_range nota of
              Inl e \<Rightarrow> Inl e
            | Inr ok \<Rightarrow> if \<not> ok then Inr False else Inr (truthy avaliacao)))"

text \<open>
  \<open>save_review\<close> (lines 83 to 103). The argument is the parsed JSON body of the request;
  \<^verbatim>\<open>data.get\<close> exists on a dictionary only.
\<close>

definition save_review :: "json \<Rightarrow> state \<Rightarrow> (py_error + response) \<times> state" where
  "save_review body s =
     (case collection s of
        None \<Rightarrow> (Inr (500, error_body msg_db), s)
      | Some db \<Rightarrow>
          (case body of
             JObj data \<Rightarrow>
               (let produto_id = dict_get data ''produto_id'';
                    nome_usuario = dict_get data ''nome_usuario'';
                    nota = dict_get data ''nota'';
                    avaliacao = dict_get data ''avaliacao''
                in case dados_validos produto_id nome_usuario nota avaliacao of
                     Inl e \<Rightarrow> (Inl e, s)
                   | Inr False \<Rightarrow> (Inr (400, error_body msg_invalid), s)
                   | Inr True \<Rightarrow>
                       (let review = [(''produto_id'', produto_id), (''nome_usuario'', nome_usuario),
                                      (''nota'', nota), (''avaliacao'', avaliacao)]
                        in (Inr (201, JObj [(''message'', JStr msg_saved)]),
                            s\<lparr>collection := Some (db @ [review])\<rparr>)))
           | _ \<Rightarrow> (Inl AttributeError, s)))"

section \<open>Reading the reviews of a product\<close>

text \<open>
  \<^verbatim>\<open>round(x, 2)\<close>: the closest multiple of one hundredth, the even one of two equally
  close ones.
\<close>

definition py_round2 :: "rat \<Rightarrow> rat" where
  "py_round2 q =
     (let x = q * 100; f = \<lfloor>x\<rfloor>; d = x - of_int f
      in of_int (if d < 1 / 2 then f else if 1 / 2 < d then f + 1
                 else if even f then f else f + 1) / 100)"

text \<open>\<^verbatim>\<open>sum(notas)\<close>, starting from the integer 0.\<close>

fun py_sum :: "json list \<Rightarrow> py_error + rat" where
  "py_sum [] = Inr 0"
| "py_sum (v # vs) =
     (case num_of v of
        None \<Rightarrow> Inl TypeError
      | Some q \<Rightarrow> (case py_sum vs of Inl e \<Rightarrow> Inl e | Inr t \<Rightarrow> Inr (q + t)))"

text \<open>\<^verbatim>\<open>round(sum(notas) / len(notas), 2) if notas else 0\<close> (line 155).\<close>

definition media_nota :: "json list \<Rightarrow> py_error + json" where
  "media_nota notas =
     (if notas \<noteq> [] then
        (case py_sum notas of
           Inl e \<Rightarrow> Inl e
         | Inr t \<Rightarrow> Inr (JFloat (py_round2 (t / of_nat (length notas)))))
      else Inr (JInt 0))"

text \<open>
  Lines 159 to 161, the branch of a cache miss: the summarizer is called on the selected
  texts and its reply is written to the cache under the product.
\<close>

definition regenerate :: "summarizer \<Rightarrow> string \<Rightarrow> doc list \<Rightarrow> state \<Rightarrow> (py_error + string) \<times> state" where
  "regenerate llm produto_id reviews s =
     (case filtrar_comentarios reviews of
        Inl e \<Rightarrow> (Inl e, s)
      | Inr comentarios \<Rightarrow>
          (case gerar_resumo llm comentarios s of
             (Inl e, s') \<Rightarrow> (Inl e, s')
           | (Inr resumo, s') \<Rightarrow>
               (Inr resumo, s'\<lparr>cache := cache_set (cache s') (now s') produto_id resumo\<rparr>)))"

text \<open>
  Lines 157 to 161: \<^verbatim>\<open>cache.get\<close>, then \<^verbatim>\<open>if not resumo_avaliacao\<close>, which holds
  for \<^verbatim>\<open>None\<close> and for the empty string.
\<close>

definition resumo_avaliacao :: "summarizer \<Rightarrow> string \<Rightarrow> doc list \<Rightarrow> state \<Rightarrow> (py_error + string) \<times> state" where
  "resumo_avaliacao llm produto_id reviews s =
     (let (cached, c) = cache_get (cache s) (now s) produto_id;
          s1 = s\<lparr>cache := c\<rparr>
      in case cached of
           None \<Rightarrow> regenerate llm produto_id reviews s1
         | Some resumo \<Rightarrow>
             if resumo = [] then regenerate llm produto_id reviews s1 else (Inr resumo, s1))"

definition reviews_body :: "string \<Rightarrow> json \<Rightarrow> doc list \<Rightarrow> json" where
  "reviews_body resumo media reviews =
     JObj [(''resumo_avaliacao'', JStr resumo), (''media'', media),
           (''avaliacoes'', JList (map JObj reviews))]"

text \<open>
  \<open>get_reviews\<close> (lines 137 to 167). The argument is
  \<^verbatim>\<open>request.args.get('produto_id')\<close>: \<open>None\<close> when the parameter is missing.
\<close>

definition get_reviews ::
  "summarizer \<Rightarrow> (json option \<Rightarrow> 'k::linorder) \<Rightarrow> string option \<Rightarrow> state
     \<Rightarrow> (py_error + response) \<times> state" where
  "get_reviews llm key arg s =
     (case collection s of
        None \<Rightarrow> (Inr (500, error_body msg_db), s)
      | Some db \<Rightarrow>
          (case arg of
             None \<Rightarrow> (Inr (400, error_body msg_id_required), s)
           | Some produto_id \<Rightarrow>
               if produto_id = [] then (Inr (400, error_body msg_id_required), s)
               else
                 (let reviews = find_sorted key db produto_id
                  in if reviews = [] then (Inr (200, reviews_body no_summary (JInt 0) []), s)
                     else
                       (case traverse (\<lambda>review. getitem review ''nota'') reviews of
                          Inl e \<Rightarrow> (Inl e, s)
                        | Inr notas \<Rightarrow>
                            (case media_nota notas of
                               Inl e \<Rightarrow> (Inl e, s)
                             | Inr media \<Rightarrow>
                                 (case resumo_avaliacao llm produto_id reviews s of
                                    (Inl e, s') \<Rightarrow> (Inl e, s')
                                  | (Inr resumo, s') \<Rightarrow>
                                      (Inr (200, reviews_body resumo media reviews), s')))))))"

section \<open>Searching the reviews of a product\<close>









section \<open>The terms of the specification\<close>







text \<open>
  The constraints on a submitted review: product identifier, reviewer name and text are
  not empty (truthy, as line 92 tests them) and the rating is a number from 1 to 5.
\<close>

definition acceptable :: "doc \<Rightarrow> bool" where
  "acceptable data =
     (truthy (dict_get data ''produto_id'') \<and> truthy (dict_get data ''nome_usuario'')
      \<and> (case num_of (dict_get data ''nota'') of None \<Rightarrow> False | Some q \<Rightarrow> 1 \<le> q \<and> q \<le> 5)
      \<and> truthy (dict_get data ''avaliacao''))"

text \<open>The document persisted for a request (lines 95 to 100).\<close>

definition review_of :: "doc \<Rightarrow> doc" where
  "review_of data =
     [(''produto_id'', dict_get data ''produto_id''), (''nome_usuario'', dict_get data ''nome_usuario''),
      (''nota'', dict_get data ''nota''), (''avaliacao'', dict_get data ''avaliacao'')]"

text \<open>A run of review submissions, one request after the other.\<close>

fun saves :: "json list \<Rightarrow> state \<Rightarrow> state" where
  "saves [] s = s"
| "saves (body # bodies) s = saves bodies (snd (save_review body s))"

text \<open>
  A document as \<open>save_review\<close> writes it: the four fields of the request and nothing
  else, in particular no field \<open>data\<close>, on which \<open>get_reviews\<close> sorts.
\<close>

definition undated :: "doc \<Rightarrow> bool" where
  "undated d =
     (map fst d = [''produto_id'', ''nome_usuario'', ''nota'', ''avaliacao'']
      \<and> map_of d ''data'' = None)"

section \<open>Calls that run one after another, and calls that overlap\<close>


text \<open>
  The handler has no lock and no marker of a computation in flight, so calls served by
  different threads can overlap. A call in progress is at one of three points of
  \<open>get_reviews\<close>: it has arrived; it has read the cache and found nothing to use
  (after line 158), holding the product, the average and the reviews in its local
  variables; it has the reply of the summarizer (after line 160). Then it has answered.
\<close>

datatype call =
    Arrived "string option"
  | Missed string json "doc list"
  | Generated string json "doc list" string
  | Answered "py_error + response"

text \<open>Lines 137 to 158: from the arrival to the test of the cached value.\<close>

definition enter ::
  "(json option \<Rightarrow> 'k::linorder) \<Rightarrow> string option \<Rightarrow> state \<Rightarrow> call \<times> state" where
  "enter key arg s =
     (case collection s of
        None \<Rightarrow> (Answered (Inr (500, error_body msg_db)), s)
      | Some db \<Rightarrow>
          (case arg of
             None \<Rightarrow> (Answered (Inr (400, error_body msg_id_required)), s)
           | Some produto_id \<Rightarrow>
               if produto_id = [] then (Answered (Inr (400, error_body msg_id_required)), s)
               else
                 (let reviews = find_sorted key db produto_id
                  in if reviews = []
                     then (Answered (Inr (200, reviews_body no_summary (JInt 0) [])), s)
                     else
                       (case traverse (\<lambda>review. getitem review ''nota'') reviews of
                          Inl e \<Rightarrow> (Answered (Inl e), s)
                        | Inr notas \<Rightarrow>
                            (case media_nota notas of
                               Inl e \<Rightarrow> (Answered (Inl e), s)
                             | Inr media \<Rightarrow>
                                 (let (cached, c) = cache_get (cache s) (now s) produto_id;
                                      s1 = s\<lparr>cache := c\<rparr>
                                  in case cached of
                                       None \<Rightarrow> (Missed produto_id media reviews, s1)
                                     | Some resumo \<Rightarrow>
                                         if resumo = [] then (Missed produto_id media reviews, s1)
                                         else (Answered (Inr (200, reviews_body resumo media reviews)),
                                               s1)))))))"

text \<open>
  One step of a call: the lines up to the test of the cache, then lines 159 and 160
  (the call of the summarizer), then lines 161 to 167 (the write to the cache and the
  answer).
\<close>

fun step ::
  "summarizer \<Rightarrow> (json option \<Rightarrow> 'k::linorder) \<Rightarrow> call \<Rightarrow> state \<Rightarrow> call \<times> state" where
  "step llm key (Arrived arg) s = enter key arg s"
| "step llm key (Missed produto_id media reviews) s =
     (case filtrar_comentarios reviews of
        Inl e \<Rightarrow> (Answered (Inl e), s)
      | Inr comentarios \<Rightarrow>
          (case gerar_resumo llm comentarios s of
             (Inl e, s') \<Rightarrow> (Answered (Inl e), s')
           | (Inr resumo, s') \<Rightarrow> (Generated produto_id media reviews resumo, s')))"
| "step llm key (Generated produto_id media reviews resumo) s =
     (Answered (Inr (200, reviews_body resumo media reviews)),
      s\<lparr>cache := cache_set (cache s) (now s) produto_id resumo\<rparr>)"
| "step llm key (Answered r) s = (Answered r, s)"

text \<open>
  A schedule names, step by step, the call that moves next; the calls share the state.
\<close>

fun run ::
  "summarizer \<Rightarrow> (json option \<Rightarrow> 'k::linorder) \<Rightarrow> nat list \<Rightarrow> call list \<times> state
     \<Rightarrow> call list \<times> state" where
  "run llm key [] cfg = cfg"
| "run llm key (i # schedule) (calls, s) =
     (if i < length calls
      then (let (c, s') = step llm key (calls ! i) s in run llm key schedule (calls[i := c], s'))
      else run llm key schedule (calls, s))"

section \<open>Inputs of the examples\<close>

text \<open>
  A store, a summarizer and a sort key on which the theorems below are run: \<open>stored\<close>
  is a document as \<open>save_review\<close> writes it, \<open>llm_ab\<close> answers its first call with
  one text and the later ones with another, the first call of \<open>llm_fail\<close> raises, the
  first call of \<open>llm_empty\<close> returns the empty string, and \<open>key_none\<close> compares all
  values of the sort field as equal (the documents written by \<open>save_review\<close> have no such field).
\<close>

definition stored :: "string \<Rightarrow> int \<Rightarrow> string \<Rightarrow> doc" where
  "stored p n t =
     [(''produto_id'', JStr p), (''nome_usuario'', JStr ''ana''), (''nota'', JInt n),
      (''avaliacao'', JStr t)]"

definition llm_ab :: summarizer where
  "llm_ab n comentarios = (if n = 0 then (Inr ''A'', 2) else (Inr ''B'', 3))"

definition llm_fail :: summarizer where
  "llm_fail n comentarios = (if n = 0 then (Inl SummarizerError, 5) else (Inr ''B'', 3))"

definition llm_empty :: summarizer where
  "llm_empty n comentarios = (if n = 0 then (Inr [], 2) else (Inr ''B'', 3))"

definition key_none :: "json option \<Rightarrow> nat" where
  "key_none v = 0"

definition store_p1 :: "doc list" where
  "store_p1 = [stored ''P1'' 5 ''Loved it'', stored ''P1'' 3 ''It was okay'']"

definition state_p1 :: state where
  "state_p1 = \<lparr>collection = Some store_p1, cache = [], now = 0, llm_log = []\<rparr>"

text \<open>The state after \<open>get_reviews\<close> for product P1 in \<open>state_p1\<close>, with \<open>llm_ab\<close>.\<close>

definition state_after_a :: state where
  "state_after_a = \<lparr>collection = Some store_p1, cache = [\<lparr>ekey = ''P1'', evalue = ''A'', expires = 3602\<rparr>],
     now = 2, llm_log = [[JStr ''Loved it'', JStr ''It was okay'']]\<rparr>"

text \<open>
  A store that holds twenty-five reviews of product P2, the \<open>i\<close>-th with a sort field
  \<open>data\<close> of value \<open>i\<close> and a text of \<open>i\<close> letters, and a sort key that compares these
  values as integers.
\<close>

definition dated :: "int \<Rightarrow> doc" where
  "dated i = stored ''P2'' 4 (replicate (nat i) CHR ''x'') @ [(''data'', JInt i)]"

definition key_int :: "json option \<Rightarrow> int" where
  "key_int v = (case v of Some (JInt i) \<Rightarrow> i | _ \<Rightarrow> 0)"

definition state_p2 :: state where
  "state_p2 = \<lparr>collection = Some (map dated [1..25]), cache = [], now = 0, llm_log = []\<rparr>"



text \<open>A service whose connection to the database failed at start-up.\<close>

definition state_down :: state where
  "state_down = \<lparr>collection = None, cache = [], now = 0, llm_log = []\<rparr>"

text \<open>A connected service with an empty collection.\<close>

definition state_empty :: state where
  "state_empty = \<lparr>collection = Some [], cache = [], now = 0, llm_log = []\<rparr>"

section \<open>Properties of the store and the cache\<close>


lemma find_append_if: "find P (xs @ ys) = (case find P xs of None \<Rightarrow> find P ys | Some x \<Rightarrow> Some x)"
  by (induction xs) auto

lemma find_without_same: "find (\<lambda>e. ekey e = k) (without k c) = None"
  by (induction c) (auto simp: without_def)

lemma find_without_other: "k' \<noteq> k \<Longrightarrow> find (\<lambda>e. ekey e = k') (without k c) = find (\<lambda>e. ekey e = k') c"
  by (induction c) (auto simp: without_def)

lemma find_key: "find (\<lambda>e. ekey e = k) c = Some e \<Longrightarrow> ekey e = k"
  by (induction c) (auto split: if_splits)

lemma entry_of_moved:
  assumes "entry_of c k = Some e"
  shows "entry_of (without k c @ [e]) = entry_of c"
proof
  fix k'
  have ke: "ekey e = k" using assms unfolding entry_of_def by (rule find_key)
  show "entry_of (without k c @ [e]) k' = entry_of c k'"
  proof (cases "k' = k")
    case True
    have "find (\<lambda>e. ekey e = k) (without k c @ [e]) = Some e"
      unfolding find_append_if find_without_same using ke by simp
    with assms True show ?thesis
      unfolding entry_of_def by simp
  next
    case False
    have "find (\<lambda>e. ekey e = k') (without k c @ [e]) = find (\<lambda>e. ekey e = k') c"
      unfolding find_append_if find_without_other [OF False] using ke False
      by (simp split: option.splits)
    then show ?thesis
      unfolding entry_of_def .
  qed
qed

lemma cache_get_fst:
  "fst (cache_get c t k) =
     (case entry_of c k of None \<Rightarrow> None | Some e \<Rightarrow> if t < expires e then Some (evalue e) else None)"
  by (simp add: cache_get_def entry_of_def live_def split: option.splits)

lemma entry_of_cache_get: "entry_of (snd (cache_get c t k)) = entry_of c"
proof (cases "entry_of c k")
  case None
  then show ?thesis by (simp add: cache_get_def entry_of_def)
next
  case (Some e)
  then have f: "find (\<lambda>e. ekey e = k) c = Some e" by (simp add: entry_of_def)
  show ?thesis
    using entry_of_moved [OF Some] by (simp add: cache_get_def f)
qed

lemma entry_of_cache_set:
  "entry_of (cache_set c t k v) k = Some \<lparr>ekey = k, evalue = v, expires = t + ttl\<rparr>"
  by (simp add: cache_set_def Let_def entry_of_def find_append_if find_without_same)


lemma regenerate_unfold:
  "regenerate llm pid rs s =
     (case filtrar_comentarios rs of
        Inl e \<Rightarrow> (Inl e, s)
      | Inr cs \<Rightarrow>
          (case fst (llm (length (llm_log s)) cs) of
             Inl e \<Rightarrow> (Inl e, s\<lparr>llm_log := llm_log s @ [cs], now := now s + snd (llm (length (llm_log s)) cs)\<rparr>)
           | Inr r \<Rightarrow> (Inr r, s\<lparr>llm_log := llm_log s @ [cs], now := now s + snd (llm (length (llm_log s)) cs),
                 cache := cache_set (cache s) (now s + snd (llm (length (llm_log s)) cs)) pid r\<rparr>)))"
  by (simp add: regenerate_def gerar_resumo_def split: sum.splits prod.splits)

lemma resumo_miss:
  assumes "usable (cache s) (now s) pid = None"
  shows "resumo_avaliacao llm pid rs s =
           regenerate llm pid rs (s\<lparr>cache := snd (cache_get (cache s) (now s) pid)\<rparr>)"
proof -
  have "fst (cache_get (cache s) (now s) pid) = None \<or> fst (cache_get (cache s) (now s) pid) = Some []"
    using assms by (auto simp: cache_get_fst usable_def split: option.splits if_splits)
  then show ?thesis
    by (auto simp: resumo_avaliacao_def split: prod.splits option.splits)
qed

lemma resumo_hit:
  assumes "usable (cache s) (now s) pid = Some r"
  shows "resumo_avaliacao llm pid rs s = (Inr r, s\<lparr>cache := snd (cache_get (cache s) (now s) pid)\<rparr>)"
proof -
  have "fst (cache_get (cache s) (now s) pid) = Some r \<and> r \<noteq> []"
    using assms by (auto simp: cache_get_fst usable_def split: option.splits if_splits)
  then show ?thesis
    by (auto simp: resumo_avaliacao_def split: prod.splits option.splits)
qed

lemma get_reviews_unfold:
  assumes "collection s = Some db" and "pid \<noteq> []" and "find_sorted key db pid \<noteq> []"
    and "traverse (\<lambda>review. getitem review ''nota'') (find_sorted key db pid) = Inr notas"
    and "media_nota notas = Inr media"
  shows "get_reviews llm key (Some pid) s =
           (case resumo_avaliacao llm pid (find_sorted key db pid) s of
              (Inl e, s') \<Rightarrow> (Inl e, s')
            | (Inr resumo, s') \<Rightarrow> (Inr (200, reviews_body resumo media (find_sorted key db pid)), s'))"
  using assms by (simp add: get_reviews_def Let_def)

lemma get_reviews_state_same:
  assumes "collection s = None \<or> arg = None \<or> arg = Some [] 
      \<or> (\<exists>db pid. collection s = Some db \<and> arg = Some pid \<and> (find_sorted key db pid = []
            \<or> (\<exists>e. traverse (\<lambda>review. getitem review ''nota'') (find_sorted key db pid) = Inl e)
            \<or> (\<exists>notas e. traverse (\<lambda>review. getitem review ''nota'') (find_sorted key db pid) = Inr notas \<and> media_nota notas = Inl e)))"
  shows "snd (get_reviews llm key arg s) = s"
  using assms by (auto simp: get_reviews_def Let_def split: option.splits sum.splits)


lemma get_reviews_invoked:
  assumes "llm_log (snd (get_reviews llm key arg s)) \<noteq> llm_log s"
  obtains db pid notas media where "collection s = Some db" and "arg = Some pid" and "pid \<noteq> []"
    and "find_sorted key db pid \<noteq> []"
    and "traverse (\<lambda>review. getitem review ''nota'') (find_sorted key db pid) = Inr notas"
    and "media_nota notas = Inr media"
proof -
  from assms have ns: "snd (get_reviews llm key arg s) \<noteq> s" by auto
  from ns obtain db where db: "collection s = Some db"
    using get_reviews_state_same [of s arg key llm] by (cases "collection s") auto
  from ns obtain pid where pid: "arg = Some pid" "pid \<noteq> []"
    using get_reviews_state_same [of s arg key llm] by (cases arg) auto
  from ns db pid have rs: "find_sorted key db pid \<noteq> []"
    using get_reviews_state_same [of s arg key llm] by auto
  from ns db pid obtain notas where
    notas: "traverse (\<lambda>review. getitem review ''nota'') (find_sorted key db pid) = Inr notas"
    using get_reviews_state_same [of s arg key llm]
    by (cases "traverse (\<lambda>review. getitem review ''nota'') (find_sorted key db pid)") auto
  from ns db pid notas obtain media where "media_nota notas = Inr media"
    using get_reviews_state_same [of s arg key llm]
    by (cases "media_nota notas") auto
  with db pid rs notas show thesis by (rule that)
qed

lemma get_reviews_hit:
  assumes "collection s = Some db" and "pid \<noteq> []" and "find_sorted key db pid \<noteq> []"
    and "traverse (\<lambda>review. getitem review ''nota'') (find_sorted key db pid) = Inr notas"
    and "media_nota notas = Inr media"
    and "usable (cache s) (now s) pid = Some r"
  shows "get_reviews llm key (Some pid) s =
           (Inr (200, reviews_body r media (find_sorted key db pid)),
            s\<lparr>cache := snd (cache_get (cache s) (now s) pid)\<rparr>)"
  by (simp add: get_reviews_unfold [OF assms(1-5)] resumo_hit [OF assms(6)])

lemma get_reviews_miss:
  assumes "collection s = Some db" and "pid \<noteq> []" and "find_sorted key db pid \<noteq> []"
    and "traverse (\<lambda>review. getitem review ''nota'') (find_sorted key db pid) = Inr notas"
    and "media_nota notas = Inr media"
    and "usable (cache s) (now s) pid = None"
  shows "get_reviews llm key (Some pid) s =
           (case filtrar_comentarios (find_sorted key db pid) of
              Inl e \<Rightarrow> (Inl e, s\<lparr>cache := snd (cache_get (cache s) (now s) pid)\<rparr>)
            | Inr cs \<Rightarrow>
                (case fst (llm (length (llm_log s)) cs) of
                   Inl e \<Rightarrow>
                     (Inl e, s\<lparr>cache := snd (cache_get (cache s) (now s) pid),
                               llm_log := llm_log s @ [cs],
                               now := now s + snd (llm (length (llm_log s)) cs)\<rparr>)
                 | Inr r \<Rightarrow>
                     (Inr (200, reviews_body r media (find_sorted key db pid)),
                      s\<lparr>llm_log := llm_log s @ [cs],
                        now := now s + snd (llm (length (llm_log s)) cs),
                        cache := cache_set (snd (cache_get (cache s) (now s) pid))
                                   (now s + snd (llm (length (llm_log s)) cs)) pid r\<rparr>)))"
  by (simp add: get_reviews_unfold [OF assms(1-5)] resumo_miss [OF assms(6)] regenerate_unfold
      split: sum.splits)

lemma usable_later:
  assumes "usable c t k = None" and "entry_of c' = entry_of c"
  shows "usable c' (t + d) k = None"
  using assms by (auto simp: usable_def split: option.splits if_splits)


lemma get_reviews_ok_path:
  assumes "get_reviews llm key (Some pid) s = (Inr (200, reviews_body resumo media reviews), s1)"
    and "reviews \<noteq> []"
  obtains db notas where "collection s = Some db" and "pid \<noteq> []"
    and "find_sorted key db pid \<noteq> []"
    and "traverse (\<lambda>review. getitem review ''nota'') (find_sorted key db pid) = Inr notas"
    and "media_nota notas = Inr media" and "reviews = find_sorted key db pid"
  using assms
  by (auto simp: get_reviews_def Let_def reviews_body_def error_body_def inj_on_def
      dest!: map_injective
      split: option.splits sum.splits if_splits prod.splits)


lemma traverse_Inr:
  "traverse f xs = Inr ys \<Longrightarrow> map f xs = map Inr ys"
  by (induction xs arbitrary: ys) (auto split: sum.splits)

lemma getitem_Inr: "getitem d k = Inr v \<longleftrightarrow> map_of d k = Some v"
  by (simp add: getitem_def split: option.splits)

lemma traverse_getitem:
  "traverse (\<lambda>d. getitem d k) xs = Inr ys \<Longrightarrow> map (\<lambda>d. map_of d k) xs = map Some ys"
  by (induction xs arbitrary: ys) (auto simp: getitem_Inr split: sum.splits)

lemma traverse_length: "traverse f xs = Inr ys \<Longrightarrow> length ys = length xs"
  by (induction xs arbitrary: ys) (auto split: sum.splits)

lemma filtrar_comentarios_Inr:
  assumes "filtrar_comentarios reviews = Inr comentarios"
  shows "length comentarios = min 20 (length reviews)
         \<and> map (\<lambda>review. map_of review ''avaliacao'') (take 20 reviews) = map Some comentarios"
  using assms traverse_getitem [of "''avaliacao''" "take 20 reviews" comentarios]
    traverse_length [of "\<lambda>d. getitem d ''avaliacao''" "take 20 reviews" comentarios]
  by (simp add: filtrar_comentarios_def min.commute)

















lemma save_review_written:
  assumes "snd (save_review body s) \<noteq> s"
  shows "\<exists>data db. body = JObj data \<and> acceptable data \<and> collection s = Some db
           \<and> save_review body s =
               (Inr (201, JObj [(''message'', JStr msg_saved)]),
                s\<lparr>collection := Some (db @ [review_of data])\<rparr>)"
proof -
  from assms obtain db where db: "collection s = Some db"
    by (cases "collection s") (auto simp: save_review_def)
  from assms db obtain data where body: "body = JObj data"
    by (cases body) (auto simp: save_review_def)
  let ?v = "dados_validos (dict_get data ''produto_id'') (dict_get data ''nome_usuario'')
              (dict_get data ''nota'') (dict_get data ''avaliacao'')"
  from assms db body have ok: "?v = Inr True"
    by (cases ?v) (auto simp: save_review_def Let_def split: bool.splits)
  then have "acceptable data"
    by (auto simp: acceptable_def dados_validos_def nota_in_range_def
        split: if_splits option.splits sum.splits)
  with db body ok show ?thesis
    by (simp add: save_review_def Let_def review_of_def)
qed

lemma dados_validos_numeric:
  assumes "num_of (dict_get data ''nota'') \<noteq> None \<or> \<not> truthy (dict_get data ''produto_id'')
             \<or> \<not> truthy (dict_get data ''nome_usuario'')"
  shows "dados_validos (dict_get data ''produto_id'') (dict_get data ''nome_usuario'')
           (dict_get data ''nota'') (dict_get data ''avaliacao'') = Inr (acceptable data)"
  using assms
  by (auto simp: acceptable_def dados_validos_def nota_in_range_def split: option.splits)

lemma undated_review_of: "undated (review_of data)"
  by (simp add: undated_def review_of_def)

lemma save_review_undated:
  assumes inv: "\<And>db. collection s = Some db \<Longrightarrow> list_all undated db"
    and after: "collection (snd (save_review body s)) = Some db'"
  shows "list_all undated db'"
proof (cases "snd (save_review body s) = s")
  case True
  with after have "collection s = Some db'" by simp
  then show ?thesis by (rule inv)
next
  case False
  then obtain data db0 where db0: "collection s = Some db0"
    and "save_review body s =
           (Inr (201, JObj [(''message'', JStr msg_saved)]),
            s\<lparr>collection := Some (db0 @ [review_of data])\<rparr>)"
    using save_review_written [of body s] by blast
  with after inv [OF db0] show ?thesis
    by (auto simp: undated_review_of)
qed

lemma saves_undated:
  assumes "\<And>db. collection s = Some db \<Longrightarrow> list_all undated db"
    and "collection (saves bodies s) = Some db'"
  shows "list_all undated db'"
  using assms
proof (induction bodies arbitrary: s)
  case Nil
  then show ?case by simp
next
  case (Cons body bodies)
  let ?s1 = "snd (save_review body s)"
  have inv1: "list_all undated db1" if "collection ?s1 = Some db1" for db1
    using Cons.prems(1) that by (rule save_review_undated)
  from Cons.prems(2) have "collection (saves bodies ?s1) = Some db'"
    by simp
  with inv1 show ?case
    by (rule Cons.IH)
qed

lemma sort_desc_equal_keys:
  assumes "\<forall>x\<in>set xs. f x = c"
  shows "sort_desc f xs = xs"
  using assms
proof (induction xs)
  case Nil
  then show ?case by simp
next
  case (Cons x xs)
  then have "sort_desc f xs = xs" by simp
  with Cons.prems show ?case
    by (cases xs) simp_all
qed

lemma step_thrice:
  "(let (c1, s1) = step llm key (Arrived arg) s;
        (c2, s2) = step llm key c1 s1
    in step llm key c2 s2) =
   (Answered (fst (get_reviews llm key arg s)), snd (get_reviews llm key arg s))"
  by (simp add: enter_def get_reviews_def resumo_avaliacao_def regenerate_def Let_def
      split: option.splits sum.splits prod.splits)

lemma run_alone:
  "run llm key [0, 0, 0] ([Arrived arg], s) =
     ([Answered (fst (get_reviews llm key arg s))], snd (get_reviews llm key arg s))"
  using step_thrice [of llm key arg s]
  by (simp add: Let_def split: prod.splits)



section \<open>A product without reviews\<close>

text \<open>
  Claim C4. When no document of the store matches a non-empty product identifier,
  \<open>get_reviews\<close> answers 200 with the placeholder summary, the average 0 and an empty
  list of reviews. The state is returned as it was (nothing is written to the cache and
  the summarizer is not called), and the answer is the same whatever the cache holds.
\<close>

theorem get_reviews_no_reviews:
  assumes "collection s = Some db"
    and "produto_id \<noteq> []"
    and "filter (matches produto_id) db = []"
  shows "get_reviews llm key (Some produto_id) s =
           (Inr (200, JObj [(''resumo_avaliacao'', JStr no_summary), (''media'', JInt 0),
                            (''avaliacoes'', JList [])]), s)
         \<and> fst (get_reviews llm key (Some produto_id) (s\<lparr>cache := c\<rparr>)) =
             fst (get_reviews llm key (Some produto_id) s)"
  using assms by (simp add: get_reviews_def find_sorted_def reviews_body_def)

theorem get_reviews_no_reviews_witness:
  "collection state_p1 = Some store_p1
   \<and> ''nonexistent'' \<noteq> []
   \<and> filter (matches ''nonexistent'') store_p1 = []
   \<and> get_reviews llm_ab key_none (Some ''nonexistent'') state_p1 =
       (Inr (200, JObj [(''resumo_avaliacao'', JStr no_summary), (''media'', JInt 0),
                        (''avaliacoes'', JList [])]), state_p1)"
proof -
  have h1: "collection state_p1 = Some store_p1"
    by (simp add: state_p1_def)
  have h2: "''nonexistent'' \<noteq> []"
    by simp
  have h3: "filter (matches ''nonexistent'') store_p1 = []"
    by (simp add: store_p1_def stored_def matches_def)
  from get_reviews_no_reviews [OF h1 h2 h3, of llm_ab key_none] h1 h2 h3
  show ?thesis by simp
qed

section \<open>A failing summarizer\<close>

text \<open>
  Claim C3. When a call of \<open>get_reviews\<close> invokes the summarizer and the invocation
  raises, the call ends with that error, the cache holds the same entry under every key
  as before (nothing is written for the product, nothing changes for the others), the
  store is untouched, and the next call for the product, whenever it comes, invokes the
  summarizer again on the same texts.
\<close>

theorem summarizer_failure_not_cached:
  assumes call: "get_reviews llm key arg s = (r, s')"
    and invoked: "llm_log s' = llm_log s @ [comentarios]"
    and failed: "fst (llm (length (llm_log s)) comentarios) = Inl e"
  shows "r = Inl e
         \<and> entry_of (cache s') = entry_of (cache s)
         \<and> collection s' = collection s
         \<and> llm_log (snd (get_reviews llm key arg (s'\<lparr>now := now s' + d\<rparr>))) =
             llm_log s' @ [comentarios]"
proof -
  from call invoked have "llm_log (snd (get_reviews llm key arg s)) \<noteq> llm_log s"
    by simp
  then obtain db pid notas media where db: "collection s = Some db" and arg: "arg = Some pid"
    and pid: "pid \<noteq> []" and rs: "find_sorted key db pid \<noteq> []"
    and notas: "traverse (\<lambda>review. getitem review ''nota'') (find_sorted key db pid) = Inr notas"
    and media: "media_nota notas = Inr media"
    by (rule get_reviews_invoked)
  have miss: "usable (cache s) (now s) pid = None"
  proof (cases "usable (cache s) (now s) pid")
    case None
    then show ?thesis .
  next
    case (Some r0)
    from get_reviews_hit [OF db pid rs notas media Some, of llm] call invoked arg
    show ?thesis by auto
  qed
  note unfolded = get_reviews_miss [OF db pid rs notas media miss, of llm]
  from unfolded call invoked arg obtain cs where cs: "filtrar_comentarios (find_sorted key db pid) = Inr cs"
    by (cases "filtrar_comentarios (find_sorted key db pid)") auto
  from unfolded call invoked arg cs have same: "cs = comentarios"
    by (cases "fst (llm (length (llm_log s)) cs)") auto
  let ?c1 = "snd (cache_get (cache s) (now s) pid)"
  let ?lat = "snd (llm (length (llm_log s)) comentarios)"
  from unfolded call arg cs same failed
  have r: "r = Inl e"
    and s': "s' = s\<lparr>cache := ?c1, llm_log := llm_log s @ [comentarios], now := now s + ?lat\<rparr>"
    by simp_all
  have entries: "entry_of (cache s') = entry_of (cache s)"
    by (simp add: s' entry_of_cache_get)
  let ?s2 = "s'\<lparr>now := now s' + d\<rparr>"
  have db2: "collection ?s2 = Some db"
    by (simp add: s' db)
  have "usable (cache s') (now s + (?lat + d)) pid = None"
    using miss entries by (rule usable_later)
  then have miss2: "usable (cache ?s2) (now ?s2) pid = None"
    by (simp add: s' add.assoc)
  have "llm_log (snd (get_reviews llm key (Some pid) ?s2)) = llm_log ?s2 @ [comentarios]"
    unfolding get_reviews_miss [OF db2 pid rs notas media miss2, of llm] cs same
    by (simp split: sum.splits)
  with r entries db arg show ?thesis
    by (simp add: s')
qed


theorem summarizer_failure_not_cached_witness:
  "get_reviews llm_fail key_none (Some ''P1'') state_p1 =
     (Inl SummarizerError, state_p1\<lparr>llm_log := [[JStr ''Loved it'', JStr ''It was okay'']], now := 5\<rparr>)
   \<and> llm_log (state_p1\<lparr>llm_log := [[JStr ''Loved it'', JStr ''It was okay'']], now := 5\<rparr>) =
       llm_log state_p1 @ [[JStr ''Loved it'', JStr ''It was okay'']]
   \<and> fst (llm_fail (length (llm_log state_p1)) [JStr ''Loved it'', JStr ''It was okay'']) = Inl SummarizerError
   \<and> entry_of (cache (state_p1\<lparr>llm_log := [[JStr ''Loved it'', JStr ''It was okay'']], now := 5\<rparr>)) =
       entry_of (cache state_p1)
   \<and> llm_log (snd (get_reviews llm_fail key_none (Some ''P1'')
        (state_p1\<lparr>llm_log := [[JStr ''Loved it'', JStr ''It was okay'']], now := 5 + 10\<rparr>))) =
       [[JStr ''Loved it'', JStr ''It was okay''], [JStr ''Loved it'', JStr ''It was okay'']]"
proof -
  let ?cs = "[JStr ''Loved it'', JStr ''It was okay'']"
  let ?s' = "state_p1\<lparr>llm_log := [?cs], now := 5\<rparr>"
  have h1: "get_reviews llm_fail key_none (Some ''P1'') state_p1 = (Inl SummarizerError, ?s')"
    by code_simp
  have h2: "llm_log ?s' = llm_log state_p1 @ [?cs]"
    by (simp add: state_p1_def)
  have h3: "fst (llm_fail (length (llm_log state_p1)) ?cs) = Inl SummarizerError"
    by (simp add: state_p1_def llm_fail_def)
  from summarizer_failure_not_cached [OF h1 h2 h3, of 10] h1 h2 h3
  show ?thesis by simp
qed

section \<open>An empty summary\<close>

text \<open>
  Claim C10. When a call of \<open>get_reviews\<close> invokes the summarizer and the reply is the
  empty string, the reply is written to the cache under the product, with a full time to
  live; a later read of the cache finds that entry while it is live, and still the next
  call for the product, whenever it comes, invokes the summarizer again: the test of
  line 158 takes the empty string for a miss.
\<close>

theorem empty_summary_never_reused:
  assumes call: "get_reviews llm key arg s = (r, s')"
    and invoked: "llm_log s' = llm_log s @ [comentarios]"
    and empty: "fst (llm (length (llm_log s)) comentarios) = Inr []"
  shows "\<exists>pid. arg = Some pid
           \<and> entry_of (cache s') pid = Some \<lparr>ekey = pid, evalue = [], expires = now s' + ttl\<rparr>
           \<and> (d < ttl \<longrightarrow> fst (cache_get (cache s') (now s' + d) pid) = Some [])
           \<and> llm_log (snd (get_reviews llm key arg (s'\<lparr>now := now s' + d\<rparr>))) =
               llm_log s' @ [comentarios]"
proof -
  from call invoked have "llm_log (snd (get_reviews llm key arg s)) \<noteq> llm_log s"
    by simp
  then obtain db pid notas media where db: "collection s = Some db" and arg: "arg = Some pid"
    and pid: "pid \<noteq> []" and rs: "find_sorted key db pid \<noteq> []"
    and notas: "traverse (\<lambda>review. getitem review ''nota'') (find_sorted key db pid) = Inr notas"
    and media: "media_nota notas = Inr media"
    by (rule get_reviews_invoked)
  have miss: "usable (cache s) (now s) pid = None"
  proof (cases "usable (cache s) (now s) pid")
    case None
    then show ?thesis .
  next
    case (Some r0)
    from get_reviews_hit [OF db pid rs notas media Some, of llm] call invoked arg
    show ?thesis by auto
  qed
  note unfolded = get_reviews_miss [OF db pid rs notas media miss, of llm]
  from unfolded call invoked arg obtain cs where cs: "filtrar_comentarios (find_sorted key db pid) = Inr cs"
    by (cases "filtrar_comentarios (find_sorted key db pid)") auto
  from unfolded call invoked arg cs have same: "cs = comentarios"
    by (cases "fst (llm (length (llm_log s)) cs)") auto
  let ?c1 = "snd (cache_get (cache s) (now s) pid)"
  let ?lat = "snd (llm (length (llm_log s)) comentarios)"
  from unfolded call arg cs same empty
  have s': "s' = s\<lparr>llm_log := llm_log s @ [comentarios], now := now s + ?lat,
                    cache := cache_set ?c1 (now s + ?lat) pid []\<rparr>"
    by simp
  have stored: "entry_of (cache s') pid = Some \<lparr>ekey = pid, evalue = [], expires = now s' + ttl\<rparr>"
    by (simp add: s' entry_of_cache_set)
  have live: "d < ttl \<longrightarrow> fst (cache_get (cache s') (now s' + d) pid) = Some []"
    by (simp add: cache_get_fst stored)
  let ?s2 = "s'\<lparr>now := now s' + d\<rparr>"
  have db2: "collection ?s2 = Some db"
    by (simp add: s' db)
  have miss2: "usable (cache ?s2) (now ?s2) pid = None"
    by (simp add: usable_def stored)
  have "llm_log (snd (get_reviews llm key (Some pid) ?s2)) = llm_log ?s2 @ [comentarios]"
    unfolding get_reviews_miss [OF db2 pid rs notas media miss2, of llm] cs same
    by (simp split: sum.splits)
  with stored live arg show ?thesis
    by simp
qed

theorem empty_summary_never_reused_witness:
  "get_reviews llm_empty key_none (Some ''P1'') state_p1 =
     (Inr (200, reviews_body [] (JFloat 4) store_p1),
      state_p1\<lparr>llm_log := [[JStr ''Loved it'', JStr ''It was okay'']], now := 2,
               cache := [\<lparr>ekey = ''P1'', evalue = [], expires = 3602\<rparr>]\<rparr>)
   \<and> fst (llm_empty (length (llm_log state_p1)) [JStr ''Loved it'', JStr ''It was okay'']) = Inr []
   \<and> fst (cache_get [\<lparr>ekey = ''P1'', evalue = [], expires = 3602\<rparr>] (2 + 100) ''P1'') = Some []
   \<and> llm_log (snd (get_reviews llm_empty key_none (Some ''P1'')
        (state_p1\<lparr>llm_log := [[JStr ''Loved it'', JStr ''It was okay'']], now := 2 + 100,
               cache := [\<lparr>ekey = ''P1'', evalue = [], expires = 3602\<rparr>]\<rparr>))) =
       [[JStr ''Loved it'', JStr ''It was okay''], [JStr ''Loved it'', JStr ''It was okay'']]"
proof -
  let ?cs = "[JStr ''Loved it'', JStr ''It was okay'']"
  let ?s' = "state_p1\<lparr>llm_log := [?cs], now := 2,
               cache := [\<lparr>ekey = ''P1'', evalue = [], expires = 3602\<rparr>]\<rparr>"
  have h1: "get_reviews llm_empty key_none (Some ''P1'') state_p1 =
     (Inr (200, reviews_body [] (JFloat 4) store_p1), ?s')"
    by code_simp
  have h2: "llm_log ?s' = llm_log state_p1 @ [?cs]"
    by (simp add: state_p1_def)
  have h3: "fst (llm_empty (length (llm_log state_p1)) ?cs) = Inr []"
    by (simp add: state_p1_def llm_empty_def)
  have h4: "(100::nat) < ttl"
    by (simp add: ttl_def)
  from empty_summary_never_reused [OF h1 h2 h3, of 100] h1 h3 h4
  show ?thesis by (simp add: state_p1_def)
qed

section \<open>Two calls in a row\<close>

text \<open>
  Claim C2, as the code has it. When a call of \<open>get_reviews\<close> for a product with
  stored reviews returns a summary that is not empty, the cache holds a live entry with
  that summary under the product afterwards; the entry expires \<open>ttl\<close> seconds after the
  end of the call when the call invoked the summarizer, and the call invoked it at most
  once. A second call made before the entry expires, the store and the cache being as
  the first call left them, returns the same answer and does not invoke the summarizer.
\<close>

theorem second_call_within_ttl:
  assumes call: "get_reviews llm key (Some pid) s = (Inr (200, reviews_body resumo media reviews), s1)"
    and stored: "reviews \<noteq> []"
    and nonempty: "resumo \<noteq> []"
  shows "\<exists>e. entry_of (cache s1) pid = Some e \<and> evalue e = resumo \<and> now s1 < expires e
           \<and> (llm_log s1 \<noteq> llm_log s \<longrightarrow> expires e = now s1 + ttl)
           \<and> length (llm_log s1) \<le> length (llm_log s) + 1
           \<and> (\<forall>d. now s1 + d < expires e \<longrightarrow>
                 fst (get_reviews llm key (Some pid) (s1\<lparr>now := now s1 + d\<rparr>)) =
                   Inr (200, reviews_body resumo media reviews)
                 \<and> llm_log (snd (get_reviews llm key (Some pid) (s1\<lparr>now := now s1 + d\<rparr>))) =
                     llm_log s1)"
proof -
  from call stored obtain db notas where db: "collection s = Some db" and pid: "pid \<noteq> []"
    and rs: "find_sorted key db pid \<noteq> []"
    and notas: "traverse (\<lambda>review. getitem review ''nota'') (find_sorted key db pid) = Inr notas"
    and media: "media_nota notas = Inr media" and reviews: "reviews = find_sorted key db pid"
    by (rule get_reviews_ok_path)
  let ?c1 = "snd (cache_get (cache s) (now s) pid)"
  have first: "\<exists>e. entry_of (cache s1) pid = Some e \<and> evalue e = resumo \<and> now s1 < expires e
           \<and> (llm_log s1 \<noteq> llm_log s \<longrightarrow> expires e = now s1 + ttl)
           \<and> length (llm_log s1) \<le> length (llm_log s) + 1 \<and> collection s1 = Some db"
  proof (cases "usable (cache s) (now s) pid")
    case (Some r0)
    from get_reviews_hit [OF db pid rs notas media Some, of llm] call
    have r0: "r0 = resumo" and s1: "s1 = s\<lparr>cache := ?c1\<rparr>"
      by (simp_all add: reviews_body_def)
    from Some r0 obtain e where "entry_of (cache s) pid = Some e" "evalue e = resumo" "now s < expires e"
      by (auto simp: usable_def split: option.splits if_splits)
    then show ?thesis
      by (simp add: s1 entry_of_cache_get db)
  next
    case None
    note unfolded = get_reviews_miss [OF db pid rs notas media None, of llm]
    from unfolded call obtain cs where cs: "filtrar_comentarios (find_sorted key db pid) = Inr cs"
      by (cases "filtrar_comentarios (find_sorted key db pid)") auto
    let ?lat = "snd (llm (length (llm_log s)) cs)"
    from unfolded call cs have reply: "fst (llm (length (llm_log s)) cs) = Inr resumo"
      by (cases "fst (llm (length (llm_log s)) cs)") (auto simp: reviews_body_def)
    from unfolded call cs reply
    have s1: "s1 = s\<lparr>llm_log := llm_log s @ [cs], now := now s + ?lat,
                      cache := cache_set ?c1 (now s + ?lat) pid resumo\<rparr>"
      by simp
    show ?thesis
      by (simp add: s1 entry_of_cache_set db ttl_def)
  qed
  then obtain e where e: "entry_of (cache s1) pid = Some e" "evalue e = resumo" "now s1 < expires e"
    and fresh: "llm_log s1 \<noteq> llm_log s \<longrightarrow> expires e = now s1 + ttl"
    and once: "length (llm_log s1) \<le> length (llm_log s) + 1" and db1: "collection s1 = Some db"
    by blast
  have second: "fst (get_reviews llm key (Some pid) (s1\<lparr>now := now s1 + d\<rparr>)) =
                   Inr (200, reviews_body resumo media reviews)
                 \<and> llm_log (snd (get_reviews llm key (Some pid) (s1\<lparr>now := now s1 + d\<rparr>))) =
                     llm_log s1" if d: "now s1 + d < expires e" for d
  proof -
    let ?s2 = "s1\<lparr>now := now s1 + d\<rparr>"
    have db2: "collection ?s2 = Some db"
      by (simp add: db1)
    have hit: "usable (cache ?s2) (now ?s2) pid = Some resumo"
      using e d nonempty by (simp add: usable_def)
    show ?thesis
      by (simp add: get_reviews_hit [OF db2 pid rs notas media hit, of llm] reviews)
  qed
  from e fresh once second show ?thesis
    by blast
qed

theorem second_call_within_ttl_witness:
  "get_reviews llm_ab key_none (Some ''P1'') state_p1 =
     (Inr (200, reviews_body ''A'' (JFloat 4) store_p1), state_after_a)
   \<and> store_p1 \<noteq> [] \<and> ''A'' \<noteq> []
   \<and> entry_of (cache state_after_a) ''P1'' = Some \<lparr>ekey = ''P1'', evalue = ''A'', expires = 3602\<rparr>
   \<and> now state_after_a + 3599 < 3602
   \<and> fst (get_reviews llm_ab key_none (Some ''P1'') (state_after_a\<lparr>now := now state_after_a + 3599\<rparr>)) =
       Inr (200, reviews_body ''A'' (JFloat 4) store_p1)
   \<and> llm_log (snd (get_reviews llm_ab key_none (Some ''P1'')
         (state_after_a\<lparr>now := now state_after_a + 3599\<rparr>))) = llm_log state_after_a"
proof -
  have h1: "get_reviews llm_ab key_none (Some ''P1'') state_p1 =
     (Inr (200, reviews_body ''A'' (JFloat 4) store_p1), state_after_a)"
    by code_simp
  have h2: "store_p1 \<noteq> []"
    by (simp add: store_p1_def)
  have h3: "''A'' \<noteq> []"
    by simp
  have e: "entry_of (cache state_after_a) ''P1'' = Some \<lparr>ekey = ''P1'', evalue = ''A'', expires = 3602\<rparr>"
    by (simp add: state_after_a_def entry_of_def)
  have d: "now state_after_a + 3599 < 3602"
    by (simp add: state_after_a_def)
  from second_call_within_ttl [OF h1 h2 h3] e d
  have "fst (get_reviews llm_ab key_none (Some ''P1'') (state_after_a\<lparr>now := now state_after_a + 3599\<rparr>)) =
       Inr (200, reviews_body ''A'' (JFloat 4) store_p1)
   \<and> llm_log (snd (get_reviews llm_ab key_none (Some ''P1'')
         (state_after_a\<lparr>now := now state_after_a + 3599\<rparr>))) = llm_log state_after_a"
    by auto
  with h1 h2 h3 e d show ?thesis
    by blast
qed

text \<open>
  Claim C2 as stated fails: two calls in a row for a product with reviews, eight seconds
  apart at most, invoke the summarizer twice when the first invocation raises (the
  failure is not cached), and also when the first reply is the empty string; then the
  two calls return different summaries.
\<close>

theorem two_calls_two_invocations:
  "length (llm_log (snd (get_reviews llm_fail key_none (Some ''P1'')
       (snd (get_reviews llm_fail key_none (Some ''P1'') state_p1))))) = 2
   \<and> now (snd (get_reviews llm_fail key_none (Some ''P1'')
       (snd (get_reviews llm_fail key_none (Some ''P1'') state_p1)))) = 8
   \<and> fst (get_reviews llm_empty key_none (Some ''P1'') state_p1) =
       Inr (200, reviews_body [] (JFloat 4) store_p1)
   \<and> fst (get_reviews llm_empty key_none (Some ''P1'')
       (snd (get_reviews llm_empty key_none (Some ''P1'') state_p1))) =
       Inr (200, reviews_body ''B'' (JFloat 4) store_p1)
   \<and> length (llm_log (snd (get_reviews llm_empty key_none (Some ''P1'')
       (snd (get_reviews llm_empty key_none (Some ''P1'') state_p1))))) = 2"
  by code_simp

section \<open>The texts sent to the summarizer\<close>

text \<open>
  Claim C9. Whenever a call of \<open>get_reviews\<close> invokes the summarizer, it invokes it once,
  and the list it passes holds the texts (the field \<open>avaliacao\<close>) of the first twenty
  reviews of the sorted sequence fetched from the store, in that order, or of all of
  them when there are fewer than twenty.
\<close>

theorem summarizer_input_first_twenty:
  assumes call: "get_reviews llm key arg s = (r, s')"
    and invoked: "llm_log s' \<noteq> llm_log s"
  shows "\<exists>db pid comentarios. collection s = Some db \<and> arg = Some pid
           \<and> llm_log s' = llm_log s @ [comentarios]
           \<and> length comentarios = min 20 (length (find_sorted key db pid))
           \<and> map (\<lambda>review. map_of review ''avaliacao'') (take 20 (find_sorted key db pid)) =
               map Some comentarios"
proof -
  from call invoked have "llm_log (snd (get_reviews llm key arg s)) \<noteq> llm_log s"
    by simp
  then obtain db pid notas media where db: "collection s = Some db" and arg: "arg = Some pid"
    and pid: "pid \<noteq> []" and rs: "find_sorted key db pid \<noteq> []"
    and notas: "traverse (\<lambda>review. getitem review ''nota'') (find_sorted key db pid) = Inr notas"
    and media: "media_nota notas = Inr media"
    by (rule get_reviews_invoked)
  have miss: "usable (cache s) (now s) pid = None"
  proof (cases "usable (cache s) (now s) pid")
    case None
    then show ?thesis .
  next
    case (Some r0)
    from get_reviews_hit [OF db pid rs notas media Some, of llm] call invoked arg
    show ?thesis by auto
  qed
  note unfolded = get_reviews_miss [OF db pid rs notas media miss, of llm]
  from unfolded call invoked arg obtain cs where cs: "filtrar_comentarios (find_sorted key db pid) = Inr cs"
    by (cases "filtrar_comentarios (find_sorted key db pid)") auto
  from unfolded call arg cs have "llm_log s' = llm_log s @ [cs]"
    by (cases "fst (llm (length (llm_log s)) cs)") auto
  with db arg filtrar_comentarios_Inr [OF cs] show ?thesis
    by blast
qed

theorem summarizer_input_first_twenty_witness:
  "llm_log (snd (get_reviews llm_ab key_int (Some ''P2'') state_p2)) =
     [map (\<lambda>i. JStr (replicate (nat i) CHR ''x'')) (rev [6..25])]
   \<and> llm_log (snd (get_reviews llm_ab key_int (Some ''P2'') state_p2)) \<noteq> llm_log state_p2
   \<and> length (find_sorted key_int (map dated [1..25]) ''P2'') = 25
   \<and> (\<exists>db pid comentarios. collection state_p2 = Some db \<and> Some ''P2'' = Some pid
         \<and> llm_log (snd (get_reviews llm_ab key_int (Some ''P2'') state_p2)) =
             llm_log state_p2 @ [comentarios]
         \<and> length comentarios = min 20 (length (find_sorted key_int db pid))
         \<and> map (\<lambda>review. map_of review ''avaliacao'') (take 20 (find_sorted key_int db pid)) =
             map Some comentarios)"
proof -
  have h1: "llm_log (snd (get_reviews llm_ab key_int (Some ''P2'') state_p2)) =
     [map (\<lambda>i. JStr (replicate (nat i) CHR ''x'')) (rev [6..25])]"
    by code_simp
  have h2: "llm_log (snd (get_reviews llm_ab key_int (Some ''P2'') state_p2)) \<noteq> llm_log state_p2"
    unfolding h1 by (simp add: state_p2_def)
  have h3: "length (find_sorted key_int (map dated [1..25]) ''P2'') = 25"
    by code_simp
  from summarizer_input_first_twenty [OF surjective_pairing h2] h1 h2 h3
  show ?thesis by blast
qed

section \<open>The average rating\<close>



section \<open>Searching\<close>




section \<open>Saving a review: validation\<close>

text \<open>
  Claim C7, as the code has it. When the connection to the database failed at start-up,
  \<open>save_review\<close> answers 500 whatever the request. With a connected store, a request
  whose body is an object and whose rating is a number (or whose product identifier or
  reviewer name is empty, which ends the test of line 92 before the rating is compared)
  is persisted and answered 201 when it meets the constraints, and answered 400 with the
  store unchanged when it does not. For every request and every state: the state changes only when the
  store is connected and the request meets the constraints, and then by the one document
  built from the request.
\<close>

theorem save_review_cases:
  "(collection s = None \<longrightarrow> save_review body s = (Inr (500, error_body msg_db), s))
   \<and> (collection s = Some db
        \<and> (num_of (dict_get data ''nota'') \<noteq> None \<or> \<not> truthy (dict_get data ''produto_id'')
             \<or> \<not> truthy (dict_get data ''nome_usuario'')) \<longrightarrow>
        save_review (JObj data) s =
          (if acceptable data
           then (Inr (201, JObj [(''message'', JStr msg_saved)]),
                 s\<lparr>collection := Some (db @ [review_of data])\<rparr>)
           else (Inr (400, error_body msg_invalid), s)))
   \<and> (snd (save_review body s) = s
        \<or> (\<exists>data0 db0. body = JObj data0 \<and> acceptable data0 \<and> collection s = Some db0
              \<and> save_review body s =
                  (Inr (201, JObj [(''message'', JStr msg_saved)]),
                   s\<lparr>collection := Some (db0 @ [review_of data0])\<rparr>)))"
proof -
  have down: "save_review body s = (Inr (500, error_body msg_db), s)" if "collection s = None"
    using that by (simp add: save_review_def)
  have checked: "save_review (JObj data) s =
          (if acceptable data
           then (Inr (201, JObj [(''message'', JStr msg_saved)]),
                 s\<lparr>collection := Some (db @ [review_of data])\<rparr>)
           else (Inr (400, error_body msg_invalid), s))"
    if db: "collection s = Some db"
      and numeric: "num_of (dict_get data ''nota'') \<noteq> None \<or> \<not> truthy (dict_get data ''produto_id'')
                   \<or> \<not> truthy (dict_get data ''nome_usuario'')"
    using db by (simp add: save_review_def Let_def dados_validos_numeric [OF numeric] review_of_def)
  from down checked save_review_written [of body s] show ?thesis
    by blast
qed

theorem save_review_cases_witness:
  "collection state_empty = Some []
   \<and> num_of (dict_get (stored ''P1'' 9 ''Loved it'') ''nota'') = Some 9
   \<and> acceptable (stored ''P1'' 5 ''Loved it'')
   \<and> save_review (JObj (stored ''P1'' 5 ''Loved it'')) state_empty =
       (Inr (201, JObj [(''message'', JStr msg_saved)]),
        state_empty\<lparr>collection := Some [stored ''P1'' 5 ''Loved it'']\<rparr>)
   \<and> save_review (JObj (stored ''P1'' 9 ''Loved it'')) state_empty =
       (Inr (400, error_body msg_invalid), state_empty)
   \<and> collection state_down = None
   \<and> save_review (JObj (stored ''P1'' 5 ''Loved it'')) state_down =
       (Inr (500, error_body msg_db), state_down)"
proof -
  have h1: "collection state_empty = Some []"
    by (simp add: state_empty_def)
  have h2: "num_of (dict_get (stored ''P1'' 5 ''Loved it'') ''nota'') = Some 5"
    by (simp add: stored_def dict_get_def)
  have h3: "num_of (dict_get (stored ''P1'' 9 ''Loved it'') ''nota'') = Some 9"
    by (simp add: stored_def dict_get_def)
  have h4: "acceptable (stored ''P1'' 5 ''Loved it'')"
    by (simp add: acceptable_def stored_def dict_get_def)
  have h5: "\<not> acceptable (stored ''P1'' 9 ''Loved it'')"
    by (simp add: acceptable_def stored_def dict_get_def)
  have h6: "review_of (stored ''P1'' 5 ''Loved it'') = stored ''P1'' 5 ''Loved it''"
    by (simp add: review_of_def stored_def dict_get_def)
  have h7: "collection state_down = None"
    by (simp add: state_down_def)
  from save_review_cases [of state_empty _ "[]" "stored ''P1'' 5 ''Loved it''"]
    save_review_cases [of state_empty _ "[]" "stored ''P1'' 9 ''Loved it''"]
    save_review_cases [of state_down "JObj (stored ''P1'' 5 ''Loved it'')"]
    h1 h2 h3 h4 h5 h6 h7
  show ?thesis
    by simp
qed

text \<open>
  Claim C7 as stated fails when the connection to the database failed at start-up: the
  guard of lines 83 and 84 answers 500 before the request is validated, also for a
  rating of 9.
\<close>

theorem save_review_disconnected:
  "\<not> acceptable (stored ''P1'' 9 ''Loved it'')
   \<and> save_review (JObj (stored ''P1'' 9 ''Loved it'')) state_down =
       (Inr (500, error_body msg_db), state_down)"
  by (simp add: acceptable_def stored_def dict_get_def save_review_def state_down_def)

text \<open>
  Outside the theorem above: a request with a product identifier and a reviewer name
  whose rating is missing raises at the comparison of line 92, and nothing is written.
\<close>

lemma save_review_missing_nota:
  "save_review (JObj [(''produto_id'', JStr ''P1''), (''nome_usuario'', JStr ''ana''),
                      (''avaliacao'', JStr ''Loved it'')]) state_empty =
     (Inl TypeError, state_empty)"
  by (simp add: save_review_def dict_get_def dados_validos_def nota_in_range_def state_empty_def)

section \<open>The order of the reviews\<close>

text \<open>
  Claim C8 does not hold of the code. Whatever requests \<open>save_review\<close> has served on a
  collection that was empty, every document of the collection holds the four fields of
  its request and nothing else: no time of insertion is stored. The field \<open>data\<close>, on
  which \<open>get_reviews\<close> sorts, is missing from all of them, so the sort leaves the reviews
  of a product in the order of their insertion, oldest first.
\<close>

theorem saved_reviews_have_no_timestamp:
  assumes "collection (saves bodies state_empty) = Some db"
  shows "list_all undated db \<and> find_sorted key db produto_id = filter (matches produto_id) db"
proof -
  have "list_all undated db0" if "collection state_empty = Some db0" for db0
    using that by (auto simp: state_empty_def)
  then have all: "list_all undated db"
    using assms by (rule saves_undated)
  then have "\<forall>d\<in>set (filter (matches produto_id) db). key (map_of d ''data'') = key None"
    by (simp add: list_all_iff undated_def)
  then have "find_sorted key db produto_id = filter (matches produto_id) db"
    unfolding find_sorted_def by (rule sort_desc_equal_keys)
  with all show ?thesis
    by simp
qed

theorem saved_reviews_have_no_timestamp_witness:
  "collection (saves [JObj (stored ''P1'' 5 ''Loved it''), JObj (stored ''P1'' 3 ''It was okay'')]
      state_empty) = Some store_p1
   \<and> list_all undated store_p1
   \<and> find_sorted key_int store_p1 ''P1'' =
       [stored ''P1'' 5 ''Loved it'', stored ''P1'' 3 ''It was okay'']
   \<and> fst (get_reviews llm_ab key_int (Some ''P1'')
        (saves [JObj (stored ''P1'' 5 ''Loved it''), JObj (stored ''P1'' 3 ''It was okay'')]
           state_empty)) =
       Inr (200, reviews_body ''A'' (JFloat 4)
         [stored ''P1'' 5 ''Loved it'', stored ''P1'' 3 ''It was okay''])"
proof -
  have h1: "collection (saves [JObj (stored ''P1'' 5 ''Loved it''),
      JObj (stored ''P1'' 3 ''It was okay'')] state_empty) = Some store_p1"
    by code_simp
  have h2: "filter (matches ''P1'') store_p1 =
      [stored ''P1'' 5 ''Loved it'', stored ''P1'' 3 ''It was okay'']"
    by code_simp
  have h3: "fst (get_reviews llm_ab key_int (Some ''P1'')
        (saves [JObj (stored ''P1'' 5 ''Loved it''), JObj (stored ''P1'' 3 ''It was okay'')]
           state_empty)) =
       Inr (200, reviews_body ''A'' (JFloat 4)
         [stored ''P1'' 5 ''Loved it'', stored ''P1'' 3 ''It was okay''])"
    by code_simp
  from saved_reviews_have_no_timestamp [OF h1, of key_int "''P1''"] h1 h2 h3
  show ?thesis
    by simp
qed

section \<open>Several calls for one product\<close>




end
